theory Spec2Isabelle
  imports Main "HOL-Library.Word"
begin

section \<open>Strings of the source language\<close>

text \<open>
  A TypeScript string is a sequence of 16-bit code units. The literals of the source are
  ASCII, so they are written as HOL string literals and read as code units by \<open>js\<close>.
\<close>

type_synonym code_unit = "16 word"
type_synonym jsstring = "code_unit list"

definition js :: "string \<Rightarrow> jsstring" where
  "js s = map of_char s"

text \<open>The character class \<open>\d\<close> of a regular expression: the ten ASCII digits.\<close>

definition isDigit :: "code_unit \<Rightarrow> bool" where
  "isDigit c = (0x30 \<le> c \<and> c \<le> 0x39)"

text \<open>
  The line terminators of the language: LF, CR, LINE SEPARATOR, PARAGRAPH SEPARATOR.
  Without the \<open>s\<close> flag, the atom \<open>.\<close> matches every code unit but these.
\<close>

definition isLineTerminator :: "code_unit \<Rightarrow> bool" where
  "isLineTerminator c = (c = 0x000A \<or> c = 0x000D \<or> c = 0x2028 \<or> c = 0x2029)"

definition isDot :: "code_unit \<Rightarrow> bool" where
  "isDot c = (\<not> isLineTerminator c)"

text \<open>
  What \<open>String.prototype.trim\<close> strips: the white space code points (TAB, VT, FF,
  the space separators, the byte order mark) and the line terminators. All of them are
  single code units.
\<close>

definition isWhiteSpace :: "code_unit \<Rightarrow> bool" where
  "isWhiteSpace c =
     (c = 0x0009 \<or> c = 0x000B \<or> c = 0x000C \<or> c = 0x0020 \<or> c = 0x00A0 \<or> c = 0x1680
      \<or> (0x2000 \<le> c \<and> c \<le> 0x200A)
      \<or> c = 0x202F \<or> c = 0x205F \<or> c = 0x3000 \<or> c = 0xFEFF
      \<or> isLineTerminator c)"

definition trim :: "jsstring \<Rightarrow> jsstring" where
  "trim s = rev (dropWhile isWhiteSpace (rev (dropWhile isWhiteSpace s)))"

section \<open>Settings and files\<close>

text \<open>
  \<open>ZettelLinkSettings\<close>. The settings tab stores a timestamp length only when
  \<open>parseInt\<close> gives a number above zero and the default is 12, so the field is a
  natural number here. The source prints the number into the text of the pattern; for
  an integer up to \<open>2 ^ 53\<close> the print is its decimal numeral and the pattern counts
  that many digits, which is what the model below does. A larger number prints rounded
  or, from \<open>10 ^ 21\<close>, with an exponent, and the braces are then literal text: the model
  does not cover those lengths.
\<close>

record ZettelLinkSettings =
  extractTimestamps :: bool
  timestampLength :: nat
  showFullPath :: bool
  appendFileName :: bool
  enableLinkResolution :: bool
  enablePartialMatching :: bool

definition DEFAULT_SETTINGS :: ZettelLinkSettings where
  "DEFAULT_SETTINGS =
     \<lparr> extractTimestamps = True, timestampLength = 12, showFullPath = True,
       appendFileName = True, enableLinkResolution = True, enablePartialMatching = True \<rparr>"

text \<open>The two views of a \<open>TFile\<close> that the plugin reads.\<close>

record TFile =
  basename :: jsstring
  path :: jsstring

section \<open>The link formatter: \<open>FileSelectModal.onChooseItem\<close>\<close>

text \<open>
  The quantified atom \<open>\d{n}\<close> at the start of the input: it consumes exactly
  \<open>n\<close> digits, or fails. The result is the captured text and the rest of the input.
\<close>

fun digits :: "nat \<Rightarrow> jsstring \<Rightarrow> (jsstring \<times> jsstring) option" where
  "digits 0 s = Some ([], s)"
| "digits (Suc n) [] = None"
| "digits (Suc n) (c # s) =
     (if isDigit c
      then (case digits n s of None \<Rightarrow> None | Some (t, r) \<Rightarrow> Some (c # t, r))
      else None)"

text \<open>
  The tail \<open>(.*)$\<close> of the pattern. The greedy star takes the longest run of
  code units that \<open>.\<close> accepts and gives them back one by one when the rest fails;
  \<open>$\<close> (no \<open>m\<close> flag) holds at the end of the input only. \<open>dotStarEnd k s\<close>
  tries the runs of length \<open>k\<close>, \<open>k - 1\<close>, ..., 0 in that order.
\<close>

fun dotStarEnd :: "nat \<Rightarrow> jsstring \<Rightarrow> jsstring option" where
  "dotStarEnd 0 s = (if s = [] then Some [] else None)"
| "dotStarEnd (Suc k) s =
     (if drop (Suc k) s = [] then Some (take (Suc k) s) else dotStarEnd k s)"

text \<open>
  \<open>fileName.match(new RegExp(`^(\\d{${timestampLength}})(.*)$`))\<close>: the two
  groups of the match, or \<open>None\<close> for \<open>null\<close>. The pattern has no \<open>g\<close> flag
  and starts with \<open>^\<close>, so the only attempt is at index 0.
\<close>

definition timestampMatch :: "nat \<Rightarrow> jsstring \<Rightarrow> (jsstring \<times> jsstring) option" where
  "timestampMatch n fileName =
     (case digits n fileName of
        None \<Rightarrow> None
      | Some (t, r) \<Rightarrow>
          (case dotStarEnd (length (takeWhile isDot r)) r of
             None \<Rightarrow> None
           | Some rest \<Rightarrow> Some (t, rest)))"

text \<open>The text that \<open>onChooseItem\<close> hands to \<open>editor.replaceRange\<close>.\<close>

definition insertionText :: "ZettelLinkSettings \<Rightarrow> jsstring \<Rightarrow> jsstring" where
  "insertionText settings fileName =
     (if extractTimestamps settings then
        (case timestampMatch (timestampLength settings) fileName of
           Some (timestamp, rest) \<Rightarrow>
             (let restName = trim rest in
              if appendFileName settings \<and> restName \<noteq> []
              then js ''[['' @ timestamp @ js '']] '' @ restName
              else js ''[['' @ timestamp @ js '']]'')
         | None \<Rightarrow> js ''[['' @ fileName @ js '']]'')
      else js ''[['' @ fileName @ js '']]'')"

definition onChooseItem :: "ZettelLinkSettings \<Rightarrow> TFile \<Rightarrow> jsstring" where
  "onChooseItem settings file = insertionText settings (basename file)"

section \<open>The link resolver: the override installed by \<open>setupLinkResolution\<close>\<close>

text \<open>
  What the override reads from outside the plugin: \<open>String.prototype.toLowerCase\<close>
  (the Unicode case mapping of the runtime, kept as a parameter), the method of the
  metadata cache that the override replaces and calls first, and the listing of the
  vault.
\<close>

record Environment =
  toLowerCase :: "jsstring \<Rightarrow> jsstring"
  originalGetFirstLinkpathDest :: "jsstring \<Rightarrow> jsstring \<Rightarrow> TFile option"
  getMarkdownFiles :: "TFile list"

text \<open>\<open>String.prototype.includes\<close>: the argument occurs at some index of the string.\<close>

fun includes_str :: "jsstring \<Rightarrow> jsstring \<Rightarrow> bool" where
  "includes_str [] needle = (needle = [])"
| "includes_str (c # s) needle =
     (if take (length needle) (c # s) = needle then True else includes_str s needle)"

text \<open>A \<open>LinkChooserModal\<close> that has been opened: its link text and its list of files.\<close>

record LinkChooserModal =
  linktext :: jsstring
  matches :: "TFile list"

text \<open>
  The mutable fields of \<open>ZettelLinksPlugin\<close> that the override touches, together
  with the chooser modals that are on screen.
\<close>

record ZettelLinksPlugin =
  chooserOpen :: bool
  lastChosenFile :: "TFile option"
  openModals :: "LinkChooserModal list"

definition initialPlugin :: ZettelLinksPlugin where
  "initialPlugin = \<lparr> chooserOpen = False, lastChosenFile = None, openModals = [] \<rparr>"

text \<open>
  The filter of step 3: the files whose lower-cased basename includes the lower-cased
  link text.
\<close>

definition partialMatches :: "Environment \<Rightarrow> jsstring \<Rightarrow> TFile list" where
  "partialMatches env lt =
     (let allFiles = getMarkdownFiles env;
          linktextLower = toLowerCase env lt
      in filter (\<lambda>f. includes_str (toLowerCase env (basename f)) linktextLower) allFiles)"

text \<open>
  The arrow function that replaces \<open>metadataCache.getFirstLinkpathDest\<close>. It returns
  at once; opening the modal only registers click handlers, so the value returned in
  the branch that opens it is the content of \<open>lastChosenFile\<close> at the time of the call.
  The result is the returned file together with the plugin after the call.
\<close>

definition getFirstLinkpathDest ::
  "Environment \<Rightarrow> ZettelLinkSettings \<Rightarrow> jsstring \<Rightarrow> jsstring \<Rightarrow> ZettelLinksPlugin
     \<Rightarrow> TFile option \<times> ZettelLinksPlugin" where
  "getFirstLinkpathDest env settings lt sourcePath this =
     (case originalGetFirstLinkpathDest env lt sourcePath of
        Some file \<Rightarrow> (Some file, this)
      | None \<Rightarrow>
          if \<not> enablePartialMatching settings then (None, this)
          else
            (let ms = partialMatches env lt in
             if length ms > 1 \<and> \<not> chooserOpen this then
               (lastChosenFile this,
                this\<lparr> chooserOpen := True,
                      openModals := openModals this @ [\<lparr> linktext = lt, matches = ms \<rparr>] \<rparr>)
             else if length ms = 1 then (Some (ms ! 0), this)
             else (None, this)))"

text \<open>
  The callback given to the modal: it stores the outcome and clears the flag. A click
  on an item calls it with that file, a click on Cancel calls it with \<open>null\<close>; both
  then close the modal. The modal can also be closed without a click (\<open>onClose\<close> only
  empties the content), which leaves the plugin's fields as they are.
\<close>

definition chooserCallback :: "TFile option \<Rightarrow> ZettelLinksPlugin \<Rightarrow> ZettelLinksPlugin" where
  "chooserCallback file this = this\<lparr> lastChosenFile := file, chooserOpen := False \<rparr>"

definition closeModal :: "nat \<Rightarrow> ZettelLinksPlugin \<Rightarrow> ZettelLinksPlugin" where
  "closeModal i this =
     this\<lparr> openModals := take i (openModals this) @ drop (Suc i) (openModals this) \<rparr>"

definition clickItem :: "nat \<Rightarrow> nat \<Rightarrow> ZettelLinksPlugin \<Rightarrow> ZettelLinksPlugin" where
  "clickItem i k this =
     closeModal i (chooserCallback (Some (matches (openModals this ! i) ! k)) this)"

definition clickCancel :: "nat \<Rightarrow> ZettelLinksPlugin \<Rightarrow> ZettelLinksPlugin" where
  "clickCancel i this = closeModal i (chooserCallback None this)"

text \<open>
  The states the plugin can be in: it starts with the flag clear and no stored outcome,
  and then serves resolution requests (under any environment and settings) and the
  user's clicks on the modals that are open.
\<close>

inductive reachable :: "ZettelLinksPlugin \<Rightarrow> bool" where
  start: "reachable initialPlugin"
| request:
    "reachable this \<Longrightarrow> reachable (snd (getFirstLinkpathDest env settings lt sourcePath this))"
| item:
    "reachable this \<Longrightarrow> i < length (openModals this)
       \<Longrightarrow> k < length (matches (openModals this ! i)) \<Longrightarrow> reachable (clickItem i k this)"
| cancel:
    "reachable this \<Longrightarrow> i < length (openModals this) \<Longrightarrow> reachable (clickCancel i this)"
| close:
    "reachable this \<Longrightarrow> i < length (openModals this) \<Longrightarrow> reachable (closeModal i this)"

text \<open>
  The words of the specification for the filter: the reference occurs in the basename
  when case is ignored, that is, the lower-cased reference is a contiguous part of the
  lower-cased basename.
\<close>

definition caseInsensitiveSubstring :: "Environment \<Rightarrow> jsstring \<Rightarrow> jsstring \<Rightarrow> bool" where
  "caseInsensitiveSubstring env reference name =
     (\<exists>u v. toLowerCase env name = u @ toLowerCase env reference @ v)"

section \<open>Example data\<close>

text \<open>
  On strings of ASCII code units \<open>toLowerCase\<close> maps the letters A to Z to a to z and
  leaves the rest; the examples use this instance of the parameter.
\<close>

definition asciiLower :: "code_unit \<Rightarrow> code_unit" where
  "asciiLower c = (if 0x41 \<le> c \<and> c \<le> 0x5A then c + 0x20 else c)"

definition fileA :: TFile where
  "fileA = \<lparr> basename = js ''2025-budget'', path = js ''2025-budget.md'' \<rparr>"

definition fileB :: TFile where
  "fileB = \<lparr> basename = js ''2025-Plan'', path = js ''notes/2025-Plan.md'' \<rparr>"

definition exampleEnv :: Environment where
  "exampleEnv =
     \<lparr> toLowerCase = map asciiLower,
       originalGetFirstLinkpathDest = (\<lambda>lt sourcePath. None),
       getMarkdownFiles = [fileA, fileB] \<rparr>"

definition exampleModal :: "jsstring \<Rightarrow> LinkChooserModal" where
  "exampleModal lt = \<lparr> linktext = lt, matches = [fileA, fileB] \<rparr>"

text \<open>The plugin while its first prompt is open, and while a later prompt is open
  after the user picked \<open>fileB\<close> in an earlier one.\<close>

definition promptOpen :: ZettelLinksPlugin where
  "promptOpen =
     \<lparr> chooserOpen = True, lastChosenFile = None, openModals = [exampleModal (js ''2025'')] \<rparr>"

definition secondPromptOpen :: ZettelLinksPlugin where
  "secondPromptOpen =
     \<lparr> chooserOpen = True, lastChosenFile = Some fileB,
       openModals = [exampleModal (js ''2025'')] \<rparr>"

section \<open>Properties of the formatter\<close>

lemmas string_eval = js_def isDigit_def isDot_def isLineTerminator_def isWhiteSpace_def trim_def

subsection \<open>What the pattern matches\<close>

lemma digits_Some_iff:
  "digits n s = Some (t, r) \<longleftrightarrow> s = t @ r \<and> length t = n \<and> list_all isDigit t"
proof (induction n s arbitrary: t rule: digits.induct)
  case (1 s) show ?case by auto
next
  case (2 n) show ?case by auto
next
  case (3 n c s)
  show ?case
  proof (cases "isDigit c")
    case False
    then show ?thesis by (cases t) auto
  next
    case True
    show ?thesis
    proof (cases t)
      case Nil then show ?thesis using True by (auto split: option.splits)
    next
      case (Cons a t')
      then show ?thesis using True 3[OF True, of t'] by (auto split: option.splits)
    qed
  qed
qed

lemma dotStarEnd_short: "k < length s \<Longrightarrow> dotStarEnd k s = None"
  by (induction k) auto

lemma dotStarEnd_all: "dotStarEnd (length s) s = Some s"
  by (cases "length s") auto

lemma takeWhile_length_less: "\<not> list_all P r \<Longrightarrow> length (takeWhile P r) < length r"
  by (induction r) auto

lemma takeWhile_list_all: "list_all P r \<Longrightarrow> takeWhile P r = r"
  by (induction r) auto

lemma dotStarEnd_takeWhile:
  "dotStarEnd (length (takeWhile isDot r)) r = (if list_all isDot r then Some r else None)"
proof (cases "list_all isDot r")
  case True
  then show ?thesis
    by (simp only: takeWhile_list_all [OF True] dotStarEnd_all if_True)
next
  case False
  then show ?thesis
    by (simp only: dotStarEnd_short [OF takeWhile_length_less [OF False]] if_False)
qed

text \<open>
  The pattern matches exactly the strings that split into \<open>n\<close> digits and a rest
  without line terminators, and the two groups are these two parts.
\<close>

lemma timestampMatch_Some_iff:
  "timestampMatch n s = Some (t, r) \<longleftrightarrow>
     s = t @ r \<and> length t = n \<and> list_all isDigit t \<and> list_all isDot r"
proof (cases "digits n s")
  case None
  then have "\<not> (s = t @ r \<and> length t = n \<and> list_all isDigit t)"
    using digits_Some_iff [of n s t r] by simp
  then show ?thesis using None by (auto simp: timestampMatch_def)
next
  case (Some p)
  obtain t' r' where p: "p = (t', r')" by (cases p)
  have d: "s = t' @ r' \<and> length t' = n \<and> list_all isDigit t'"
    using Some p digits_Some_iff [of n s t' r'] by simp
  have "timestampMatch n s = (if list_all isDot r' then Some (t', r') else None)"
    using Some p by (simp add: timestampMatch_def dotStarEnd_takeWhile)
  then show ?thesis using d by auto
qed

subsection \<open>Trimming and digit runs\<close>

lemma trim_Nil_iff: "trim s = [] \<longleftrightarrow> list_all isWhiteSpace s"
proof
  assume t: "trim s = []"
  show "list_all isWhiteSpace s"
  proof (cases "dropWhile isWhiteSpace s")
    case Nil
    then show ?thesis by (simp add: list_all_iff)
  next
    case (Cons a as)
    then have "\<not> isWhiteSpace a" using hd_dropWhile [of isWhiteSpace s] by auto
    moreover have "isWhiteSpace a" using t Cons by (auto simp: trim_def)
    ultimately show ?thesis by simp
  qed
next
  assume "list_all isWhiteSpace s"
  then have d: "dropWhile isWhiteSpace s = []" by (induction s) auto
  show "trim s = []" unfolding trim_def d by simp
qed

lemma isDigit_not_isWhiteSpace: "isDigit c \<Longrightarrow> \<not> isWhiteSpace c"
  unfolding isDigit_def isWhiteSpace_def isLineTerminator_def
  by (auto simp: word_le_nat_alt)

lemma take_in_run:
  "n \<le> length (takeWhile P s) \<Longrightarrow> list_all P (take n s) \<and> length (take n s) = n"
proof -
  assume n: "n \<le> length (takeWhile P s)"
  have "take n (takeWhile P s @ dropWhile P s) = take n (takeWhile P s)"
    using n by (simp del: takeWhile_dropWhile_id)
  then have e: "take n s = take n (takeWhile P s)" by simp
  have "set (take n (takeWhile P s)) \<subseteq> set (takeWhile P s)" by (rule set_take_subset)
  then have "list_all P (take n s)" unfolding e by (auto simp: list_all_iff dest: set_takeWhileD)
  moreover have "length (take n s) = n" unfolding e using n by simp
  ultimately show ?thesis by simp
qed

lemma drop_in_run:
  "n < length (takeWhile P s) \<Longrightarrow> drop n s \<noteq> [] \<and> P (hd (drop n s))"
proof -
  assume n: "n < length (takeWhile P s)"
  have l: "length (takeWhile P s) \<le> length s" by (rule length_takeWhile_le)
  then have "n < length s" using n by simp
  then have "drop n s \<noteq> []" and "hd (drop n s) = s ! n" by (simp_all add: hd_drop_conv_nth)
  moreover have "s ! n = takeWhile P s ! n" using n by (simp add: takeWhile_nth)
  moreover have "P (takeWhile P s ! n)" using n nth_mem set_takeWhileD by metis
  ultimately show ?thesis by simp
qed

lemma run_covers_prefix: "list_all P t \<Longrightarrow> length t \<le> length (takeWhile P (t @ r))"
  by (induction t) auto

text \<open>
  A leading digit run shorter than the timestamp length never matches (for a length
  that the pattern counts, see the settings above).
\<close>

lemma format_short_digit_run:
  assumes "timestampLength c \<le> 2 ^ 53"
    and "length (takeWhile isDigit b) < timestampLength c"
  shows "insertionText c b = js ''[['' @ b @ js '']]''"
proof (cases "timestampMatch (timestampLength c) b")
  case None
  then show ?thesis by (simp add: insertionText_def)
next
  case (Some p)
  obtain t r where p: "p = (t, r)" by (cases p)
  have "b = t @ r \<and> length t = timestampLength c \<and> list_all isDigit t"
    using Some p timestampMatch_Some_iff [of "timestampLength c" b t r] by simp
  then have "timestampLength c \<le> length (takeWhile isDigit b)"
    using run_covers_prefix [of isDigit t r] by simp
  then show ?thesis using assms(2) by simp
qed

subsection \<open>The claims about the formatter\<close>

text \<open>
  C4. With timestamp extraction switched off, the inserted text is the basename between
  double brackets, for every basename and every other setting.
\<close>

theorem format_extract_disabled:
  "insertionText (settings\<lparr>extractTimestamps := False\<rparr>) b = js ''[['' @ b @ js '']]''"
  by (simp add: insertionText_def)

text \<open>
  C1. The claim is about every basename that begins with \<open>timestampLength\<close> digits,
  whatever follows them. The pattern of the source ends in \<open>(.*)$\<close>, and \<open>.\<close> accepts
  no line terminator, so a rest that contains one makes the whole match fail and the
  basename is linked whole. With the default settings and the basename made of the twelve
  digits 202512270824, a line feed and \<open>foo\<close>, the claim gives \<open>[[202512270824]] foo\<close>
  (trimming strips the line feed); the source gives the whole basename between brackets.
  An earlier version of the same handler takes the rest with \<open>[\s\S]*\<close>, which accepts
  every code unit.
\<close>

theorem format_rest_with_line_terminator:
  "extractTimestamps DEFAULT_SETTINGS
   \<and> appendFileName DEFAULT_SETTINGS
   \<and> length (js ''202512270824'') = timestampLength DEFAULT_SETTINGS
   \<and> list_all isDigit (js ''202512270824'')
   \<and> trim (0x000A # js ''foo'') = js ''foo''
   \<and> insertionText DEFAULT_SETTINGS (js ''202512270824'' @ 0x000A # js ''foo'')
       = js ''[['' @ (js ''202512270824'' @ 0x000A # js ''foo'') @ js '']]''
   \<and> insertionText DEFAULT_SETTINGS (js ''202512270824'' @ 0x000A # js ''foo'')
       \<noteq> js ''[['' @ js ''202512270824'' @ js '']] '' @ js ''foo''"
proof -
  have d: "digits 12 (js ''202512270824'' @ 0x000A # js ''foo'')
             = Some (js ''202512270824'', 0x000A # js ''foo'')"
    by (simp add: digits_Some_iff string_eval)
  have "timestampMatch 12 (js ''202512270824'' @ 0x000A # js ''foo'') = None"
    unfolding timestampMatch_def d by (simp add: string_eval)
  then show ?thesis
    by (simp add: insertionText_def DEFAULT_SETTINGS_def string_eval)
qed

text \<open>
  Where the rest has no line terminator the formatter does what is described: a
  basename made of \<open>timestampLength\<close> digits \<open>ts\<close> and such a rest is formatted as
  \<open>[[ts]] rest\<close> with the rest trimmed when \<open>appendFileName\<close> is set and the trimmed
  rest is not empty, and as \<open>[[ts]]\<close> otherwise.
\<close>

theorem format_timestamp_match:
  assumes "extractTimestamps c" and "b = ts @ rem" and "length ts = timestampLength c"
    and "list_all isDigit ts" and "list_all isDot rem"
  shows "insertionText c b =
           (if appendFileName c \<and> trim rem \<noteq> []
            then js ''[['' @ ts @ js '']] '' @ trim rem
            else js ''[['' @ ts @ js '']]'')"
proof -
  have "timestampMatch (timestampLength c) b = Some (ts, rem)"
    using assms by (simp add: timestampMatch_Some_iff)
  then show ?thesis using assms(1) by (simp add: insertionText_def Let_def)
qed

theorem format_timestamp_match_witness:
  "extractTimestamps DEFAULT_SETTINGS
   \<and> js ''202512270824 Christmas Traditions'' = js ''202512270824'' @ js '' Christmas Traditions''
   \<and> length (js ''202512270824'') = timestampLength DEFAULT_SETTINGS
   \<and> list_all isDigit (js ''202512270824'')
   \<and> list_all isDot (js '' Christmas Traditions'')
   \<and> insertionText DEFAULT_SETTINGS (js ''202512270824 Christmas Traditions'')
       = js ''[[202512270824]] Christmas Traditions''"
  using format_timestamp_match [of DEFAULT_SETTINGS "js ''202512270824 Christmas Traditions''"
      "js ''202512270824''" "js '' Christmas Traditions''"]
  by (simp add: DEFAULT_SETTINGS_def string_eval)

text \<open>
  C3, as stated, fails: the pattern has nothing after the counted digits that forbids
  another digit, so a leading run of 13 digits matches with a timestamp length of 12.
  The thirteenth digit starts the rest.
\<close>

theorem format_longer_digit_run_counterexample:
  "extractTimestamps DEFAULT_SETTINGS
   \<and> timestampLength DEFAULT_SETTINGS < length (takeWhile isDigit (js ''2025122708245 Notes''))
   \<and> insertionText DEFAULT_SETTINGS (js ''2025122708245 Notes'') = js ''[[202512270824]] 5 Notes''
   \<and> insertionText DEFAULT_SETTINGS (js ''2025122708245 Notes'')
       \<noteq> js ''[['' @ js ''2025122708245 Notes'' @ js '']]''"
proof -
  have "timestampMatch 12 (js ''2025122708245 Notes'') = Some (js ''202512270824'', js ''5 Notes'')"
    by (simp add: timestampMatch_Some_iff string_eval)
  then show ?thesis
    by (simp add: insertionText_def DEFAULT_SETTINGS_def string_eval)
qed

text \<open>
  C3, amended. With timestamp extraction on, a basename whose leading digit run is
  strictly longer than \<open>timestampLength\<close>, and which has no line terminator after the
  first \<open>timestampLength\<close> code units, does match: the timestamp is the first
  \<open>timestampLength\<close> digits, the trimmed rest begins with the next digit and so is not
  empty, and the result is \<open>[[timestamp]] rest\<close> when \<open>appendFileName\<close> is set and
  \<open>[[timestamp]]\<close> when it is not.
\<close>

theorem format_longer_digit_run:
  assumes "extractTimestamps c" and "timestampLength c < length (takeWhile isDigit b)"
    and "list_all isDot (drop (timestampLength c) b)"
  shows "trim (drop (timestampLength c) b) \<noteq> [] \<and>
         insertionText c b =
           (if appendFileName c
            then js ''[['' @ take (timestampLength c) b @ js '']] ''
                   @ trim (drop (timestampLength c) b)
            else js ''[['' @ take (timestampLength c) b @ js '']]'')"
proof -
  let ?n = "timestampLength c"
  have p: "list_all isDigit (take ?n b) \<and> length (take ?n b) = ?n"
    using assms(2) take_in_run [of ?n isDigit b] by simp
  have "timestampMatch ?n b = Some (take ?n b, drop ?n b)"
    using p assms(3) by (simp add: timestampMatch_Some_iff)
  then have f: "insertionText c b =
      (if appendFileName c \<and> trim (drop ?n b) \<noteq> []
       then js ''[['' @ take ?n b @ js '']] '' @ trim (drop ?n b)
       else js ''[['' @ take ?n b @ js '']]'')"
    using assms(1) by (simp add: insertionText_def Let_def)
  have d: "drop ?n b \<noteq> [] \<and> isDigit (hd (drop ?n b))"
    using assms(2) by (rule drop_in_run)
  have "\<not> list_all isWhiteSpace (drop ?n b)"
  proof
    assume "list_all isWhiteSpace (drop ?n b)"
    then have "isWhiteSpace (hd (drop ?n b))" using d by (cases "drop ?n b") auto
    then show False using d isDigit_not_isWhiteSpace by blast
  qed
  then have t: "trim (drop ?n b) \<noteq> []" by (simp add: trim_Nil_iff)
  show ?thesis using f t by simp
qed

theorem format_longer_digit_run_witness:
  "extractTimestamps DEFAULT_SETTINGS
   \<and> timestampLength DEFAULT_SETTINGS < length (takeWhile isDigit (js ''2025122708245 Notes''))
   \<and> list_all isDot (drop (timestampLength DEFAULT_SETTINGS) (js ''2025122708245 Notes''))
   \<and> insertionText DEFAULT_SETTINGS (js ''2025122708245 Notes'') = js ''[[202512270824]] 5 Notes''"
  using format_longer_digit_run [of DEFAULT_SETTINGS "js ''2025122708245 Notes''"]
  by (simp add: DEFAULT_SETTINGS_def string_eval)

text \<open>
  C9. The formatter has no failing branch: the pattern is well formed for every length,
  both groups take part in every match, and the functions above are total. For every
  basename (the empty one too) and every configuration the result is a link: \<open>[[\<close>, a
  target that is an initial part of the basename, \<open>]]\<close>, and possibly text after it.
\<close>

theorem format_total:
  "\<exists>t r. insertionText c b = js ''[['' @ t @ js '']]'' @ r \<and> take (length t) b = t"
proof (cases "extractTimestamps c")
  case False
  then have "insertionText c b = js ''[['' @ b @ js '']]'' @ []" by (simp add: insertionText_def)
  then show ?thesis by (metis order_refl take_all)
next
  case True
  show ?thesis
  proof (cases "timestampMatch (timestampLength c) b")
    case None
    then have "insertionText c b = js ''[['' @ b @ js '']]'' @ []"
      using True by (simp add: insertionText_def)
    then show ?thesis by (metis order_refl take_all)
  next
    case (Some p)
    obtain t r where p: "p = (t, r)" by (cases p)
    have b: "b = t @ r"
      using Some p timestampMatch_Some_iff [of "timestampLength c" b t r] by simp
    have "insertionText c b =
        js ''[['' @ t @ js '']]'' @ (if appendFileName c \<and> trim r \<noteq> [] then js '' '' @ trim r else [])"
      using True Some p by (simp add: insertionText_def Let_def js_def)
    moreover have "take (length t) b = t" using b by simp
    ultimately show ?thesis by blast
  qed
qed

section \<open>Properties of the resolver\<close>

subsection \<open>Substring search\<close>

lemma take_eq_prefix: "take (length n) s = n \<longleftrightarrow> (\<exists>v. s = n @ v)"
proof
  assume "take (length n) s = n"
  then have "s = n @ drop (length n) s" by (metis append_take_drop_id)
  then show "\<exists>v. s = n @ v" ..
next
  assume "\<exists>v. s = n @ v"
  then show "take (length n) s = n" by auto
qed

lemma includes_str_iff: "includes_str s n \<longleftrightarrow> (\<exists>u v. s = u @ n @ v)"
proof (induction s)
  case Nil
  show ?case by auto
next
  case (Cons c s)
  show ?case
  proof
    assume "includes_str (c # s) n"
    then consider "take (length n) (c # s) = n" | "includes_str s n"
      by (auto split: if_splits)
    then show "\<exists>u v. c # s = u @ n @ v"
    proof cases
      case 1
      then obtain v where "c # s = n @ v" using take_eq_prefix [of n "c # s"] by blast
      then have "c # s = [] @ n @ v" by simp
      then show ?thesis by blast
    next
      case 2
      then obtain u v where "s = u @ n @ v" using Cons.IH by blast
      then have "c # s = (c # u) @ n @ v" by simp
      then show ?thesis by blast
    qed
  next
    assume "\<exists>u v. c # s = u @ n @ v"
    then obtain u v where e: "c # s = u @ n @ v" by blast
    show "includes_str (c # s) n"
    proof (cases u)
      case Nil
      then have "take (length n) (c # s) = n" using e take_eq_prefix [of n "c # s"] by auto
      then show ?thesis by simp
    next
      case (Cons a u')
      then have "s = u' @ n @ v" using e by simp
      then have "includes_str s n" using Cons.IH by blast
      then show ?thesis by simp
    qed
  qed
qed


text \<open>The filter of the source keeps the files that the specification describes.\<close>

lemma partialMatches_spec:
  "partialMatches env lt =
     filter (\<lambda>f. caseInsensitiveSubstring env lt (basename f)) (getMarkdownFiles env)"
  by (simp add: partialMatches_def caseInsensitiveSubstring_def includes_str_iff)


subsection \<open>The example vault\<close>

lemma example_matches: "partialMatches exampleEnv (js ''2025'') = [fileA, fileB]"
  by (simp add: partialMatches_def exampleEnv_def fileA_def fileB_def asciiLower_def js_def)

lemma example_hyphen_matches: "partialMatches exampleEnv (js ''-'') = [fileA, fileB]"
  by (simp add: partialMatches_def exampleEnv_def fileA_def fileB_def asciiLower_def js_def)

lemma example_one_match: "partialMatches exampleEnv (js ''PLAN'') = [fileB]"
  by (simp add: partialMatches_def exampleEnv_def fileA_def fileB_def asciiLower_def js_def)

lemma example_no_match: "partialMatches exampleEnv (js ''2026'') = []"
  by (simp add: partialMatches_def exampleEnv_def fileA_def fileB_def asciiLower_def js_def)

lemma example_original: "originalGetFirstLinkpathDest exampleEnv lt sourcePath = None"
  by (simp add: exampleEnv_def)

lemma example_partial: "enablePartialMatching DEFAULT_SETTINGS"
  by (simp add: DEFAULT_SETTINGS_def)

lemma example_first_request:
  "getFirstLinkpathDest exampleEnv DEFAULT_SETTINGS (js ''2025'') (js ''a.md'') initialPlugin
   = (None, promptOpen)"
  by (simp add: getFirstLinkpathDest_def example_matches example_original example_partial
      initialPlugin_def promptOpen_def exampleModal_def)

lemma example_pick:
  "clickItem 0 1 promptOpen
   = \<lparr> chooserOpen = False, lastChosenFile = Some fileB, openModals = [] \<rparr>"
  by (simp add: clickItem_def closeModal_def chooserCallback_def promptOpen_def exampleModal_def)

lemma example_second_request:
  "getFirstLinkpathDest exampleEnv DEFAULT_SETTINGS (js ''2025'') (js ''a.md'')
     \<lparr> chooserOpen = False, lastChosenFile = Some fileB, openModals = [] \<rparr>
   = (Some fileB, secondPromptOpen)"
  by (simp add: getFirstLinkpathDest_def example_matches example_original example_partial
      secondPromptOpen_def exampleModal_def)

lemma example_pending_request:
  "getFirstLinkpathDest exampleEnv DEFAULT_SETTINGS (js ''2025'') (js ''a.md'') secondPromptOpen
   = (None, secondPromptOpen)"
  by (simp add: getFirstLinkpathDest_def example_matches example_original example_partial
      secondPromptOpen_def)

lemma reachable_promptOpen: "reachable promptOpen"
  using reachable.request
    [OF reachable.start, of exampleEnv DEFAULT_SETTINGS "js ''2025''" "js ''a.md''"]
  by (simp add: example_first_request)

lemma reachable_secondPromptOpen: "reachable secondPromptOpen"
proof -
  have "reachable (clickItem 0 1 promptOpen)"
    by (rule reachable.item [OF reachable_promptOpen])
       (simp_all add: promptOpen_def exampleModal_def)
  then have "reachable \<lparr> chooserOpen = False, lastChosenFile = Some fileB, openModals = [] \<rparr>"
    by (simp only: example_pick)
  from reachable.request [OF this, of exampleEnv DEFAULT_SETTINGS "js ''2025''" "js ''a.md''"]
  show ?thesis by (simp add: example_second_request)
qed

subsection \<open>The invariant of the guard flag\<close>

text \<open>
  At most one modal is on screen, and none is while the flag is clear: a modal is opened
  only under a clear flag, which the opening sets, and the flag is cleared only by the
  callback of the one modal that is open, which then closes.
\<close>

lemma modals_invariant:
  "reachable this \<Longrightarrow>
     length (openModals this) \<le> 1 \<and> (if chooserOpen this then True else openModals this = [])"
proof (induction rule: reachable.induct)
  case start
  show ?case by (simp add: initialPlugin_def)
next
  case (request this env settings lt sourcePath)
  then show ?case
    by (auto simp: getFirstLinkpathDest_def Let_def split: option.splits if_splits)
next
  case (item this i k)
  then show ?case
    by (auto simp: clickItem_def closeModal_def chooserCallback_def)
next
  case (cancel this i)
  then show ?case
    by (auto simp: clickCancel_def closeModal_def chooserCallback_def)
next
  case (close this i)
  then show ?case
    by (auto simp: closeModal_def split: if_splits)
qed

subsection \<open>The claims about the resolver\<close>

text \<open>
  C6. When the original method finds a file, the override returns that file and leaves
  the plugin as it was (no modal is opened), whatever the vault lists.
\<close>

theorem resolve_default_unchanged:
  "originalGetFirstLinkpathDest env lt sourcePath = Some d \<Longrightarrow>
   getFirstLinkpathDest (env\<lparr>getMarkdownFiles := files\<rparr>) settings lt sourcePath this
     = (Some d, this)"
  by (simp add: getFirstLinkpathDest_def)

theorem resolve_default_unchanged_witness:
  "originalGetFirstLinkpathDest
     (exampleEnv\<lparr>originalGetFirstLinkpathDest := \<lambda>lt sourcePath. Some fileA\<rparr>)
     (js ''2025'') (js ''a.md'') = Some fileA
   \<and> getFirstLinkpathDest
       (exampleEnv\<lparr>originalGetFirstLinkpathDest := \<lambda>lt sourcePath. Some fileA,
                    getMarkdownFiles := [fileB]\<rparr>)
       DEFAULT_SETTINGS (js ''2025'') (js ''a.md'') initialPlugin = (Some fileA, initialPlugin)"
  using resolve_default_unchanged
    [of "exampleEnv\<lparr>originalGetFirstLinkpathDest := \<lambda>lt sourcePath. Some fileA\<rparr>"
        "js ''2025''" "js ''a.md''" fileA "[fileB]" DEFAULT_SETTINGS initialPlugin]
  by simp

text \<open>
  C8. When the original method finds nothing and partial matching is switched off, the
  override returns \<open>null\<close> as a value and leaves the plugin as it was, whatever the
  vault lists.
\<close>

theorem resolve_partial_disabled:
  "originalGetFirstLinkpathDest env lt sourcePath = None \<Longrightarrow>
   \<not> enablePartialMatching settings \<Longrightarrow>
   getFirstLinkpathDest env settings lt sourcePath this = (None, this)"
  by (simp add: getFirstLinkpathDest_def)

theorem resolve_partial_disabled_witness:
  "originalGetFirstLinkpathDest exampleEnv (js ''2025'') (js ''a.md'') = None
   \<and> \<not> enablePartialMatching (DEFAULT_SETTINGS\<lparr>enablePartialMatching := False\<rparr>)
   \<and> getMarkdownFiles exampleEnv \<noteq> []
   \<and> getFirstLinkpathDest exampleEnv (DEFAULT_SETTINGS\<lparr>enablePartialMatching := False\<rparr>)
        (js ''2025'') (js ''a.md'') initialPlugin = (None, initialPlugin)"
  using resolve_partial_disabled
    [of exampleEnv "js ''2025''" "js ''a.md''"
        "DEFAULT_SETTINGS\<lparr>enablePartialMatching := False\<rparr>" initialPlugin]
  by (simp add: example_original) (simp add: exampleEnv_def)

text \<open>
  C5. With no original resolution and partial matching on, the candidates are filtered
  to the files whose basename contains the reference when case is ignored; if at most
  one file passes, the override returns it when there is one and \<open>null\<close> when there
  is none, and leaves the plugin as it was.
\<close>

theorem resolve_zero_or_one_match:
  assumes "originalGetFirstLinkpathDest env lt sourcePath = None"
    and "enablePartialMatching settings"
    and "length (filter (\<lambda>f. caseInsensitiveSubstring env lt (basename f))
           (getMarkdownFiles env)) \<le> 1"
  shows "getFirstLinkpathDest env settings lt sourcePath this =
           (case filter (\<lambda>f. caseInsensitiveSubstring env lt (basename f))
                   (getMarkdownFiles env) of
              [] \<Rightarrow> None
            | f # fs \<Rightarrow> Some f,
            this)"
proof -
  let ?ms = "filter (\<lambda>f. caseInsensitiveSubstring env lt (basename f)) (getMarkdownFiles env)"
  have m: "partialMatches env lt = ?ms" by (rule partialMatches_spec)
  show ?thesis
  proof (cases ?ms)
    case Nil
    then show ?thesis using assms(1,2) m by (simp add: getFirstLinkpathDest_def)
  next
    case (Cons f fs)
    then have "fs = []" using assms(3) by simp
    then show ?thesis using assms(1,2) m Cons by (simp add: getFirstLinkpathDest_def)
  qed
qed

theorem resolve_zero_or_one_match_witness:
  "originalGetFirstLinkpathDest exampleEnv (js ''PLAN'') (js ''a.md'') = None
   \<and> enablePartialMatching DEFAULT_SETTINGS
   \<and> filter (\<lambda>f. caseInsensitiveSubstring exampleEnv (js ''PLAN'') (basename f))
        (getMarkdownFiles exampleEnv) = [fileB]
   \<and> getFirstLinkpathDest exampleEnv DEFAULT_SETTINGS (js ''PLAN'') (js ''a.md'') initialPlugin
       = (Some fileB, initialPlugin)
   \<and> filter (\<lambda>f. caseInsensitiveSubstring exampleEnv (js ''2026'') (basename f))
        (getMarkdownFiles exampleEnv) = []
   \<and> getFirstLinkpathDest exampleEnv DEFAULT_SETTINGS (js ''2026'') (js ''a.md'') initialPlugin
       = (None, initialPlugin)"
  using resolve_zero_or_one_match
      [of exampleEnv "js ''PLAN''" "js ''a.md''" DEFAULT_SETTINGS initialPlugin]
    resolve_zero_or_one_match
      [of exampleEnv "js ''2026''" "js ''a.md''" DEFAULT_SETTINGS initialPlugin]
  by (simp add: partialMatches_spec [symmetric] example_one_match example_no_match
      example_original example_partial)




text \<open>
  C2. What the override does when more than one file matches and no prompt is pending:
  it opens the chooser and returns at once what \<open>lastChosenFile\<close> held before the
  call, so the result of the call is not the pick that the user makes in the chooser.
  On the example vault a first request for \<open>2025\<close> returns \<open>null\<close> and opens the
  chooser; the user picks the second item, \<open>fileB\<close>, which is only stored; the next
  request with several matches, for the link text \<open>-\<close>, returns \<open>fileB\<close>.
\<close>

theorem multi_match_returns_before_pick:
  "getFirstLinkpathDest exampleEnv DEFAULT_SETTINGS (js ''2025'') (js ''a.md'') initialPlugin
     = (None, promptOpen)
   \<and> matches (openModals promptOpen ! 0) ! 1 = fileB
   \<and> lastChosenFile (clickItem 0 1 promptOpen) = Some fileB
   \<and> fst (getFirstLinkpathDest exampleEnv DEFAULT_SETTINGS (js ''-'') (js ''b.md'')
        (clickItem 0 1 promptOpen)) = Some fileB"
proof -
  have "fst (getFirstLinkpathDest exampleEnv DEFAULT_SETTINGS (js ''-'') (js ''b.md'')
        \<lparr> chooserOpen = False, lastChosenFile = Some fileB, openModals = [] \<rparr>) = Some fileB"
    by (simp add: getFirstLinkpathDest_def example_hyphen_matches example_original
        example_partial)
  then have "fst (getFirstLinkpathDest exampleEnv DEFAULT_SETTINGS (js ''-'') (js ''b.md'')
        (clickItem 0 1 promptOpen)) = Some fileB"
    by (simp only: example_pick)
  moreover have "lastChosenFile (clickItem 0 1 promptOpen) = Some fileB"
    by (simp only: example_pick) simp
  moreover have "matches (openModals promptOpen ! 0) ! 1 = fileB"
    by (simp add: promptOpen_def exampleModal_def)
  ultimately show ?thesis using example_first_request by simp
qed

text \<open>
  C7, as stated, fails in its second half: a request that arrives while the flag is set
  does not read the stored outcome. In the reachable state where a second prompt is open
  and the slot holds \<open>fileB\<close>, a request with two matches returns \<open>null\<close>.
\<close>

theorem pending_request_ignores_slot:
  "reachable secondPromptOpen
   \<and> chooserOpen secondPromptOpen
   \<and> lastChosenFile secondPromptOpen = Some fileB
   \<and> fst (getFirstLinkpathDest exampleEnv DEFAULT_SETTINGS (js ''2025'') (js ''a.md'')
        secondPromptOpen) = None
   \<and> fst (getFirstLinkpathDest exampleEnv DEFAULT_SETTINGS (js ''2025'') (js ''a.md'')
        secondPromptOpen) \<noteq> lastChosenFile secondPromptOpen"
  using reachable_secondPromptOpen
  by (simp add: example_pending_request) (simp add: secondPromptOpen_def)

text \<open>
  C7, amended. In every reachable state at most one chooser is open. A request that
  arrives while the flag is set leaves the plugin as it was, so it opens no second
  chooser; and when it has no original resolution, partial matching is on and more than
  one file matches, its result is \<open>null\<close>.
\<close>

theorem single_prompt:
  "reachable this \<Longrightarrow>
     length (openModals this) \<le> 1
     \<and> (chooserOpen this \<longrightarrow> snd (getFirstLinkpathDest env settings lt sourcePath this) = this)
     \<and> (chooserOpen this \<and> originalGetFirstLinkpathDest env lt sourcePath = None
          \<and> enablePartialMatching settings \<and> 1 < length (partialMatches env lt)
        \<longrightarrow> fst (getFirstLinkpathDest env settings lt sourcePath this) = None)"
  using modals_invariant [of this]
  by (auto simp: getFirstLinkpathDest_def Let_def split: option.splits)

theorem single_prompt_witness:
  "reachable promptOpen
   \<and> length (openModals promptOpen) \<le> 1
   \<and> chooserOpen promptOpen
   \<and> originalGetFirstLinkpathDest exampleEnv (js ''2025'') (js ''a.md'') = None
   \<and> enablePartialMatching DEFAULT_SETTINGS
   \<and> 1 < length (partialMatches exampleEnv (js ''2025''))
   \<and> snd (getFirstLinkpathDest exampleEnv DEFAULT_SETTINGS (js ''2025'') (js ''a.md'') promptOpen)
       = promptOpen
   \<and> fst (getFirstLinkpathDest exampleEnv DEFAULT_SETTINGS (js ''2025'') (js ''a.md'') promptOpen)
       = None"
  using single_prompt
      [OF reachable_promptOpen, of exampleEnv DEFAULT_SETTINGS "js ''2025''" "js ''a.md''"]
    reachable_promptOpen
  by (simp add: example_original example_partial example_matches) (simp add: promptOpen_def)

end
